theory Spec2Isabelle
  imports Main
begin

section \<open>Data model\<close>

text \<open>
  The engine of \<^verbatim>\<open>sync_engine.py\<close> reconciles two entity types, each with a table in
  the read-only SQL Server source and a table in the PostgreSQL target. A row is its
  primary key (\<^verbatim>\<open>TradeId\<close> / \<^verbatim>\<open>trade_id\<close>, the first column of both field lists)
  together with the remaining columns, which the engine only copies. The classes
  \<^verbatim>\<open>FXTradeSync\<close> (\<^verbatim>\<open>tblFXTrade\<close> to \<^verbatim>\<open>gzc_fx_trade\<close>) and \<^verbatim>\<open>FXOptionTradeSync\<close>
  (\<^verbatim>\<open>tblFXOptionTrade\<close> to \<^verbatim>\<open>gzc_fx_option_trade\<close>) are the same code up to the table
  names and the column lists, so each of their methods is one function of the entity.
\<close>

datatype entity = FXTrade | FXOptionTrade

datatype store = SqlServer | Postgres

type_synonym 'a row = "int \<times> 'a"

text \<open>
  The places of one entity's sync at which a store can raise, and the exceptions that
  reach the caller. \<open>EmptyQuery\<close> is the driver's refusal of an empty statement.
\<close>

datatype step =
    ConnectSource | ConnectTarget | GetSourceIds | GetTargetIds
  | FetchMissing | InsertRecords | Commit | FinalCount

datatype error = ConnectionError store | QueryError step | EmptyQuery

text \<open>
  What the process does to the outside, in order: the banner logged at the start of an
  entity's sync, connections opened and closed, the statements submitted to either store
  (the fetch query with its number of placeholders and the ids bound to them, each page
  of the batched insert with its rows), the commit and the logged insert count.
\<close>

datatype 'a event =
    Syncing entity
  | Connected store
  | Closed store
  | SelectIds store entity
  | SelectWhereIdIn entity nat "int set"
  | InsertPage entity "'a row list"
  | Committed
  | LogInserted nat
  | SelectCount entity

text \<open>
  \<open>BATCH_SIZE\<close> is \<^verbatim>\<open>SyncConfig.BATCH_SIZE = int(os.getenv('BATCH_SIZE', '1000'))\<close>, any
  Python integer. \<open>faults\<close> is the behaviour of the two stores that the code cannot
  control: \<open>faults env e s\<close> says that during the sync of entity \<open>e\<close> the call at step
  \<open>s\<close> raises.
\<close>

record env =
  BATCH_SIZE :: int
  faults :: "entity \<Rightarrow> step \<Rightarrow> bool"

text \<open>
  The state outside the process: the source tables, the committed target tables, the view
  of the target inside the open PostgreSQL transaction (psycopg2 opens a transaction at
  the first statement; only \<^verbatim>\<open>commit()\<close> makes its writes durable, and closing the
  connection discards them), the number of open connections to each store, and the
  events so far.
\<close>

record 'a world =
  source_tables :: "entity \<Rightarrow> 'a row list"
  target_tables :: "entity \<Rightarrow> 'a row list"
  session :: "entity \<Rightarrow> 'a row list"
  open_conns :: "store \<Rightarrow> nat"
  trace :: "'a event list"

type_synonym ('a, 'r) action = "'a world \<Rightarrow> (error + 'r) \<times> 'a world"

definition emit :: "'a event \<Rightarrow> 'a world \<Rightarrow> 'a world" where
  "emit ev w = w\<lparr>trace := trace w @ [ev]\<rparr>"

text \<open>Sequencing of two calls: an exception of the first skips the second.\<close>

definition and_then :: "('a, 'r) action \<Rightarrow> ('r \<Rightarrow> ('a, 'q) action) \<Rightarrow> ('a, 'q) action" where
  "and_then m f w = (case m w of (Inl err, w') \<Rightarrow> (Inl err, w') | (Inr x, w') \<Rightarrow> f x w')"

definition return :: "'r \<Rightarrow> ('a, 'r) action" where
  "return x w = (Inr x, w)"

section \<open>DatabaseConnector\<close>

definition get_sql_server_connection :: "env \<Rightarrow> entity \<Rightarrow> ('a, unit) action" where
  "get_sql_server_connection env e w =
     (if faults env e ConnectSource then (Inl (ConnectionError SqlServer), w)
      else (Inr (), emit (Connected SqlServer)
              (w\<lparr>open_conns := (open_conns w)(SqlServer := Suc (open_conns w SqlServer))\<rparr>)))"

definition get_postgres_connection :: "env \<Rightarrow> entity \<Rightarrow> ('a, unit) action" where
  "get_postgres_connection env e w =
     (if faults env e ConnectTarget then (Inl (ConnectionError Postgres), w)
      else (Inr (), emit (Connected Postgres)
              (w\<lparr>open_conns := (open_conns w)(Postgres := Suc (open_conns w Postgres)),
                 session := target_tables w\<rparr>)))"

text \<open>
  \<^verbatim>\<open>cursor.close(); conn.close()\<close> on one store. What the closed PostgreSQL transaction
  had not committed stays out of \<open>target_tables\<close>; the next connection starts from
  \<open>target_tables\<close> again.
\<close>

definition close_connection :: "store \<Rightarrow> 'a world \<Rightarrow> 'a world" where
  "close_connection s w =
     emit (Closed s) (w\<lparr>open_conns := (open_conns w)(s := open_conns w s - 1)\<rparr>)"

section \<open>The statements of one entity's sync\<close>

text \<open>\<^verbatim>\<open>SELECT TradeId FROM source\<close>, collected into a Python set.\<close>

definition get_source_ids :: "env \<Rightarrow> entity \<Rightarrow> ('a, int set) action" where
  "get_source_ids env e w =
     (let w' = emit (SelectIds SqlServer e) w in
      if faults env e GetSourceIds then (Inl (QueryError GetSourceIds), w')
      else (Inr (set (map fst (source_tables w e))), w'))"

definition get_target_ids :: "env \<Rightarrow> entity \<Rightarrow> ('a, int set) action" where
  "get_target_ids env e w =
     (let w' = emit (SelectIds Postgres e) w in
      if faults env e GetTargetIds then (Inl (QueryError GetTargetIds), w')
      else (Inr (set (map fst (session w e))), w'))"

text \<open>
  \<^verbatim>\<open>fetch_missing_records\<close>: one query with \<^verbatim>\<open>len(missing_ids)\<close> placeholders, bound to
  \<^verbatim>\<open>tuple(missing_ids)\<close>; the rows whose key is among them, ordered by key. The event
  keeps the bound ids as a set, since Python fixes no order for the elements of a set and
  \<^verbatim>\<open>IN\<close> does not depend on one. \<^verbatim>\<open>ORDER BY TradeId\<close> is a stable sort here: rows
  with equal keys, which SQL may return in any order, keep the order of the table.
\<close>

definition fetch_missing_records :: "env \<Rightarrow> entity \<Rightarrow> int set \<Rightarrow> ('a, 'a row list) action" where
  "fetch_missing_records env e missing_ids w =
     (if missing_ids = {} then (Inr [], w)
      else
        let w' = emit (SelectWhereIdIn e (card missing_ids) missing_ids) w in
        if faults env e FetchMissing then (Inl (QueryError FetchMissing), w')
        else (Inr (sort_key fst (filter (\<lambda>r. fst r \<in> missing_ids) (source_tables w e))), w'))"

text \<open>\<^verbatim>\<open>INSERT INTO target (...) VALUES (...) ON CONFLICT (trade_id) DO NOTHING\<close> of one row.\<close>

definition insert_row :: "'a row list \<Rightarrow> 'a row \<Rightarrow> 'a row list" where
  "insert_row t r = (if fst r \<in> set (map fst t) then t else t @ [r])"

text \<open>
  \<^verbatim>\<open>psycopg2.extras.execute_batch(cursor, sql, argslist, page_size)\<close> belongs to the
  driver: it cuts \<open>argslist\<close> into pages of \<open>page_size\<close> items (the last one shorter) and
  sends each page as one round trip of statements, which the server runs in order. With
  \<open>page_size \<le> 0\<close> its first page is empty, and the driver refuses the empty statement.
\<close>

function paginate :: "nat \<Rightarrow> 'b list \<Rightarrow> 'b list list" where
  "paginate n xs = (if n = 0 \<or> xs = [] then [] else take n xs # paginate n (drop n xs))"
  by pat_completeness auto
termination
  by (relation "measure (\<lambda>(n, xs). length xs)") auto

declare paginate.simps [simp del]

definition execute_page :: "entity \<Rightarrow> 'a world \<Rightarrow> 'a row list \<Rightarrow> 'a world" where
  "execute_page e w page =
     emit (InsertPage e page) (w\<lparr>session := (session w)(e := foldl insert_row (session w e) page)\<rparr>)"

definition execute_batch :: "entity \<Rightarrow> 'a row list \<Rightarrow> int \<Rightarrow> ('a, unit) action" where
  "execute_batch e argslist page_size w =
     (if page_size \<le> 0 then (Inl EmptyQuery, w)
      else (Inr (), foldl (execute_page e) w (paginate (nat page_size) argslist)))"

text \<open>
  \<^verbatim>\<open>insert_records\<close>. A statement that the store refuses is modelled as refused before the
  first page is sent; with the driver the pages before the refused one have been sent,
  inside a transaction that is then never committed, so the two differ only in the
  events recorded after such a refusal.
\<close>

definition insert_records :: "env \<Rightarrow> entity \<Rightarrow> 'a row list \<Rightarrow> ('a, nat) action" where
  "insert_records env e records w =
     (if records = [] then (Inr 0, w)
      else if faults env e InsertRecords then (Inl (QueryError InsertRecords), w)
      else and_then (execute_batch e records (BATCH_SIZE env))
             (\<lambda>_. return (length records)) w)"

definition pg_commit :: "env \<Rightarrow> entity \<Rightarrow> ('a, unit) action" where
  "pg_commit env e w =
     (if faults env e Commit then (Inl (QueryError Commit), w)
      else (Inr (), emit Committed (w\<lparr>target_tables := session w\<rparr>)))"

text \<open>\<^verbatim>\<open>SELECT COUNT(*) FROM target\<close> on the PostgreSQL cursor.\<close>

definition select_count :: "env \<Rightarrow> entity \<Rightarrow> ('a, nat) action" where
  "select_count env e w =
     (let w' = emit (SelectCount e) w in
      if faults env e FinalCount then (Inl (QueryError FinalCount), w')
      else (Inr (length (session w e)), w'))"

section \<open>sync and main\<close>

text \<open>The body of the \<^verbatim>\<open>try\<close> block of \<^verbatim>\<open>sync()\<close>; its value is the returned flag.\<close>

definition sync_body :: "env \<Rightarrow> entity \<Rightarrow> ('a, bool) action" where
  "sync_body env e =
     and_then (get_source_ids env e) (\<lambda>source_ids.
     and_then (get_target_ids env e) (\<lambda>target_ids.
       let missing_ids = source_ids - target_ids in
       and_then
         (if missing_ids \<noteq> {} then
            and_then (fetch_missing_records env e missing_ids) (\<lambda>records.
            and_then (insert_records env e records) (\<lambda>inserted.
            and_then (pg_commit env e) (\<lambda>_.
            (\<lambda>w. (Inr (), emit (LogInserted inserted) w)))))
          else return ())
         (\<lambda>_. and_then (select_count env e) (\<lambda>final_count.
            return (final_count = card source_ids)))))"

text \<open>
  \<^verbatim>\<open>sync()\<close>: both connections are opened before the \<^verbatim>\<open>try\<close>; the \<^verbatim>\<open>finally\<close> closes
  both after the body, whatever it did.
\<close>

definition sync :: "env \<Rightarrow> entity \<Rightarrow> ('a, bool) action" where
  "sync env e w =
     (case get_sql_server_connection env e (emit (Syncing e) w) of
        (Inl err, w1) \<Rightarrow> (Inl err, w1)
      | (Inr _, w1) \<Rightarrow>
          (case get_postgres_connection env e w1 of
             (Inl err, w2) \<Rightarrow> (Inl err, w2)
           | (Inr _, w2) \<Rightarrow>
               (case sync_body env e w2 of
                  (r, w3) \<Rightarrow> (r, close_connection Postgres (close_connection SqlServer w3)))))"

text \<open>
  \<^verbatim>\<open>main()\<close>, with the process exit code as its value: an exception of either sync
  reaches the \<^verbatim>\<open>except\<close> clause, which exits with 1; otherwise the code is 1 when
  \<open>success\<close> was cleared and 0 when \<^verbatim>\<open>main\<close> returns normally.
\<close>

definition main :: "env \<Rightarrow> 'a world \<Rightarrow> nat \<times> 'a world" where
  "main env w =
     (case sync env FXTrade w of
        (Inl err, w1) \<Rightarrow> (1, w1)
      | (Inr r1, w1) \<Rightarrow>
          (let success = (if \<not> r1 then False else True) in
           case sync env FXOptionTrade w1 of
             (Inl err, w2) \<Rightarrow> (1, w2)
           | (Inr r2, w2) \<Rightarrow>
               (let success = (if \<not> r2 then False else success) in
                if \<not> success then (1, w2) else (0, w2))))"

text \<open>The outcome of one entity's sync, in the words of the state machine.\<close>

datatype outcome = CONVERGED | MISMATCH | FAILED

definition outcome_of :: "error + bool \<Rightarrow> outcome" where
  "outcome_of r = (case r of Inl err \<Rightarrow> FAILED | Inr b \<Rightarrow> (if b then CONVERGED else MISMATCH))"

section \<open>Notions used in the statements\<close>

text \<open>
  The missing set and the rows fetched for it, read off the tables at the start of a
  sync; the absence of store failures during one entity's sync; the events of a sync
  that meets no failure.
\<close>

definition missing_ids_of :: "'a world \<Rightarrow> entity \<Rightarrow> int set" where
  "missing_ids_of w e = set (map fst (source_tables w e)) - set (map fst (target_tables w e))"

definition fetched_rows :: "'a world \<Rightarrow> entity \<Rightarrow> 'a row list" where
  "fetched_rows w e = sort_key fst (filter (\<lambda>r. fst r \<in> missing_ids_of w e) (source_tables w e))"

definition no_faults :: "env \<Rightarrow> entity \<Rightarrow> bool" where
  "no_faults env e = (\<not> faults env e ConnectSource \<and> \<not> faults env e ConnectTarget \<and>
     \<not> faults env e GetSourceIds \<and> \<not> faults env e GetTargetIds \<and> \<not> faults env e FetchMissing \<and>
     \<not> faults env e InsertRecords \<and> \<not> faults env e Commit \<and> \<not> faults env e FinalCount)"

definition sync_events :: "env \<Rightarrow> 'a world \<Rightarrow> entity \<Rightarrow> 'a event list" where
  "sync_events env w e =
     [Syncing e, Connected SqlServer, Connected Postgres, SelectIds SqlServer e, SelectIds Postgres e] @
     (if missing_ids_of w e \<noteq> {} then
        SelectWhereIdIn e (card (missing_ids_of w e)) (missing_ids_of w e) #
        map (InsertPage e) (paginate (nat (BATCH_SIZE env)) (fetched_rows w e)) @
        [Committed, LogInserted (length (fetched_rows w e))]
      else []) @
     [SelectCount e, Closed SqlServer, Closed Postgres]"

text \<open>Concrete inputs: the default configuration with stores that never fail, and tables.\<close>

definition quiet :: env where
  "quiet = \<lparr>BATCH_SIZE = 1000, faults = (\<lambda>e s. False)\<rparr>"

definition stale_world :: "string world" where
  "stale_world =
     \<lparr>source_tables = (\<lambda>e. [])(FXTrade := [(1, ''a''), (2, ''b'')]),
      target_tables = (\<lambda>e. [])(FXTrade := [(1, ''a''), (2, ''b''), (3, ''c'')]),
      session = (\<lambda>e. [])(FXTrade := [(1, ''a''), (2, ''b''), (3, ''c'')]),
      open_conns = (\<lambda>s. 0),
      trace = []\<rparr>"

definition five_world :: "string world" where
  "five_world =
     \<lparr>source_tables = (\<lambda>e. [])(FXTrade := [(5, ''e''), (1, ''a''), (2, ''b''), (4, ''d''), (3, ''c'')]),
      target_tables = (\<lambda>e. [])(FXTrade := [(1, ''a''), (3, ''c'')]),
      session = (\<lambda>e. []),
      open_conns = (\<lambda>s. 0),
      trace = []\<rparr>"

text \<open>
  The same stores with other batch sizes, and stores that refuse a connection during the
  sync of the first entity type.
\<close>

definition small_batches :: env where
  "small_batches = \<lparr>BATCH_SIZE = 2, faults = (\<lambda>e s. False)\<rparr>"

definition zero_batch :: env where
  "zero_batch = \<lparr>BATCH_SIZE = 0, faults = (\<lambda>e s. False)\<rparr>"

definition source_down :: env where
  "source_down = \<lparr>BATCH_SIZE = 1000, faults = (\<lambda>e s. e = FXTrade \<and> s = ConnectSource)\<rparr>"

definition target_down :: env where
  "target_down = \<lparr>BATCH_SIZE = 1000, faults = (\<lambda>e s. e = FXTrade \<and> s = ConnectTarget)\<rparr>"

text \<open>
  The events of a sync whose missing set is empty, and the test that a submitted
  statement stays within a parameter-count limit of the backend.
\<close>

definition idle_events :: "entity \<Rightarrow> 'a event list" where
  "idle_events e =
     [Syncing e, Connected SqlServer, Connected Postgres, SelectIds SqlServer e,
      SelectIds Postgres e, SelectCount e, Closed SqlServer, Closed Postgres]"

definition within_limit :: "nat \<Rightarrow> 'a event \<Rightarrow> bool" where
  "within_limit limit ev = (case ev of SelectWhereIdIn e n ids \<Rightarrow> n \<le> limit | _ \<Rightarrow> True)"

section \<open>The batched insert\<close>

lemma concat_paginate: "0 < n \<Longrightarrow> concat (paginate n xs) = xs"
proof (induction n xs rule: paginate.induct)
  case (1 n xs)
  then show ?case by (subst paginate.simps) auto
qed

lemma paginate_Nil: "paginate n [] = []"
  by (simp add: paginate.simps)

lemma foldl_execute_page:
  "foldl (execute_page e) w pages =
     w\<lparr>session := (session w)(e := foldl insert_row (session w e) (concat pages)),
       trace := trace w @ map (InsertPage e) pages\<rparr>"
  by (induction pages arbitrary: w) (simp_all add: execute_page_def emit_def)

lemma keys_insert_row: "set (map fst (insert_row t r)) = insert (fst r) (set (map fst t))"
  by (auto simp: insert_row_def)

lemma keys_foldl_insert_row:
  "set (map fst (foldl insert_row t rs)) = set (map fst t) \<union> set (map fst rs)"
  by (induction rs arbitrary: t) (auto simp: keys_insert_row simp del: set_map)

lemma distinct_insert_row: "distinct (map fst t) \<Longrightarrow> distinct (map fst (insert_row t r))"
  by (auto simp: insert_row_def)

lemma distinct_foldl_insert_row:
  "distinct (map fst t) \<Longrightarrow> distinct (map fst (foldl insert_row t rs))"
  by (induction rs arbitrary: t) (auto simp: distinct_insert_row simp del: set_map)

lemma filter_insert_row:
  "k \<in> set (map fst t) \<Longrightarrow> filter (\<lambda>r. fst r = k) (insert_row t r) = filter (\<lambda>r. fst r = k) t"
  by (auto simp: insert_row_def)

lemma filter_foldl_insert_row:
  "k \<in> set (map fst t) \<Longrightarrow>
     filter (\<lambda>r. fst r = k) (foldl insert_row t rs) = filter (\<lambda>r. fst r = k) t"
proof (induction rs arbitrary: t)
  case Nil then show ?case by simp
next
  case (Cons r rs)
  have "k \<in> set (map fst (insert_row t r))" using Cons.prems by (simp add: keys_insert_row del: set_map)
  then show ?case using Cons.IH[of "insert_row t r"] Cons.prems by (simp add: filter_insert_row del: set_map)
qed

lemma insert_records_ok:
  assumes "0 < BATCH_SIZE env" "\<not> faults env e InsertRecords"
  shows "insert_records env e records w =
     (Inr (length records),
      w\<lparr>session := (session w)(e := foldl insert_row (session w e) records),
        trace := trace w @ map (InsertPage e) (paginate (nat (BATCH_SIZE env)) records)\<rparr>)"
  using assms
  by (simp add: insert_records_def execute_batch_def and_then_def return_def foldl_execute_page
      concat_paginate paginate_Nil)

lemma length_foldl_insert_row:
  "length (foldl insert_row t rs) = length t + card (set (map fst rs) - set (map fst t))"
proof (induction rs arbitrary: t)
  case Nil
  then show ?case by simp
next
  case (Cons r rs)
  show ?case
  proof (cases "fst r \<in> set (map fst t)")
    case True
    then have "set (map fst (r # rs)) - set (map fst t) = set (map fst rs) - set (map fst t)"
      by auto
    with True Cons.IH[of t] show ?thesis by (simp add: insert_row_def del: set_map)
  next
    case False
    have fin: "finite (set (map fst rs) - insert (fst r) (set (map fst t)))" by simp
    have eq: "set (map fst (r # rs)) - set (map fst t) =
                insert (fst r) (set (map fst rs) - insert (fst r) (set (map fst t)))"
      using False by auto
    have "card (set (map fst (r # rs)) - set (map fst t)) =
            Suc (card (set (map fst rs) - insert (fst r) (set (map fst t))))"
      unfolding eq using fin by (subst card_insert_disjoint) auto
    with False Cons.IH[of "t @ [r]"] show ?thesis
      by (simp add: insert_row_def del: set_map)
  qed
qed

lemma card_new_keys_less:
  assumes "r \<in> set records" "fst r \<in> K"
  shows "card (set (map fst records) - K) < length records"
proof -
  have "set (map fst records) - K \<subset> set (map fst records)"
    using assms by auto
  then have "card (set (map fst records) - K) < card (set (map fst records))"
    by (intro psubset_card_mono) auto
  also have "\<dots> \<le> length (map fst records)" by (rule card_length)
  finally show ?thesis by simp
qed

section \<open>A sync without store failures\<close>

lemma fetched_rows_Nil: "missing_ids_of w e = {} \<Longrightarrow> fetched_rows w e = []"
  by (simp add: fetched_rows_def)

lemma fetched_rows_nonempty: "missing_ids_of w e \<noteq> {} \<Longrightarrow> fetched_rows w e \<noteq> []"
proof -
  assume "missing_ids_of w e \<noteq> {}"
  then obtain k where k: "k \<in> missing_ids_of w e" by blast
  then have "k \<in> set (map fst (source_tables w e))" by (simp add: missing_ids_of_def)
  then obtain r where "r \<in> set (source_tables w e)" "fst r = k" by auto
  with k have "r \<in> set (fetched_rows w e)" by (simp add: fetched_rows_def)
  then show ?thesis by auto
qed

lemma sync_ok:
  assumes "no_faults env e" "0 < BATCH_SIZE env"
  shows "sync env e w =
     (Inr (length (foldl insert_row (target_tables w e) (fetched_rows w e)) =
             card (set (map fst (source_tables w e)))),
      w\<lparr>target_tables := (target_tables w)(e := foldl insert_row (target_tables w e) (fetched_rows w e)),
        session := (target_tables w)(e := foldl insert_row (target_tables w e) (fetched_rows w e)),
        trace := trace w @ sync_events env w e\<rparr>)"
proof (cases "missing_ids_of w e = {}")
  case True
  then have sub: "set (map fst (source_tables w e)) \<subseteq> set (map fst (target_tables w e))"
    by (simp add: missing_ids_of_def del: set_map)
  have f: "fetched_rows w e = []" using True by (rule fetched_rows_Nil)
  show ?thesis using assms sub True
    by (simp add: sync_def sync_body_def and_then_def return_def emit_def no_faults_def
        get_sql_server_connection_def get_postgres_connection_def close_connection_def
        get_source_ids_def get_target_ids_def select_count_def sync_events_def
        f Let_def del: set_map)
next
  case False
  then have sub: "\<not> set (map fst (source_tables w e)) \<subseteq> set (map fst (target_tables w e))"
    by (simp add: missing_ids_of_def del: set_map)
  have ne: "sort_key fst (filter (\<lambda>r. fst r \<in> set (map fst (source_tables w e)) -
      set (map fst (target_tables w e))) (source_tables w e)) \<noteq> []"
    using fetched_rows_nonempty[OF False] by (simp add: fetched_rows_def missing_ids_of_def del: set_map)
  show ?thesis using assms sub False ne
    by (simp add: sync_def sync_body_def and_then_def return_def emit_def no_faults_def
        get_sql_server_connection_def get_postgres_connection_def close_connection_def
        get_source_ids_def get_target_ids_def select_count_def sync_events_def
        fetch_missing_records_def insert_records_ok pg_commit_def
        fetched_rows_def Let_def missing_ids_of_def del: set_map)
qed

lemma sync_ok_idle:
  assumes "no_faults env e" "0 < BATCH_SIZE env" "missing_ids_of w e = {}"
  shows "sync env e w =
     (Inr (length (target_tables w e) = card (set (map fst (source_tables w e)))),
      w\<lparr>session := target_tables w, trace := trace w @ idle_events e\<rparr>)"
  using assms
  by (simp add: sync_ok fetched_rows_Nil sync_events_def idle_events_def)

lemma keys_fetched_rows: "set (map fst (fetched_rows w e)) = missing_ids_of w e"
  by (auto simp: fetched_rows_def missing_ids_of_def)

lemma keys_after_sync:
  "set (map fst (foldl insert_row (target_tables w e) (fetched_rows w e))) =
     set (map fst (target_tables w e)) \<union> set (map fst (source_tables w e))"
  unfolding keys_foldl_insert_row keys_fetched_rows by (auto simp: missing_ids_of_def)

lemma card_union_eq_iff:
  assumes "finite A" "finite B"
  shows "card (A \<union> B) = card B \<longleftrightarrow> A \<subseteq> B"
proof
  assume "card (A \<union> B) = card B"
  moreover have "B \<subseteq> A \<union> B" by blast
  ultimately have "B = A \<union> B" using assms by (intro card_subset_eq) auto
  then show "A \<subseteq> B" by blast
next
  assume "A \<subseteq> B"
  then have "A \<union> B = B" by blast
  then show "card (A \<union> B) = card B" by simp
qed

lemma length_after_sync:
  assumes "distinct (map fst (target_tables w e))"
  shows "length (foldl insert_row (target_tables w e) (fetched_rows w e)) =
           card (set (map fst (target_tables w e)) \<union> set (map fst (source_tables w e)))"
proof -
  have "distinct (map fst (foldl insert_row (target_tables w e) (fetched_rows w e)))"
    using assms by (rule distinct_foldl_insert_row)
  then have "card (set (map fst (foldl insert_row (target_tables w e) (fetched_rows w e)))) =
      length (map fst (foldl insert_row (target_tables w e) (fetched_rows w e)))"
    by (rule distinct_card)
  then show ?thesis unfolding keys_after_sync by simp
qed

lemma sync_result:
  assumes "no_faults env e" "0 < BATCH_SIZE env" "distinct (map fst (target_tables w e))"
  shows "fst (sync env e w) =
     Inr (set (map fst (target_tables w e)) \<subseteq> set (map fst (source_tables w e)))"
  using assms
  by (simp add: sync_ok length_after_sync card_union_eq_iff del: set_map)

section \<open>All paths of a sync\<close>

lemmas op_defs = sync_def sync_body_def and_then_def return_def emit_def
        get_sql_server_connection_def get_postgres_connection_def close_connection_def
        get_source_ids_def get_target_ids_def select_count_def
        fetch_missing_records_def insert_records_def execute_batch_def pg_commit_def Let_def

lemma sync_trace_starts: "\<exists>evs. trace (snd (sync env e w)) = trace w @ Syncing e # evs"
  by (simp add: op_defs foldl_execute_page del: set_map)

lemma sync_closes_unless:
  "\<not> (\<not> faults env e ConnectSource \<and> faults env e ConnectTarget) \<Longrightarrow>
     open_conns (snd (sync env e w)) = open_conns w"
  by (auto simp add: op_defs foldl_execute_page simp del: set_map)

lemma sync_batch_size_irrelevant:
  assumes "0 < BATCH_SIZE env" "0 < b"
  shows "fst (sync (env\<lparr>BATCH_SIZE := b\<rparr>) e w) = fst (sync env e w) \<and>
     target_tables (snd (sync (env\<lparr>BATCH_SIZE := b\<rparr>) e w)) = target_tables (snd (sync env e w))"
  using assms
  by (simp add: op_defs foldl_execute_page concat_paginate del: set_map)

lemma banner_not_page: "Syncing e' \<in> set (map (InsertPage e) pages) \<longleftrightarrow> False"
  by auto

lemma sync_banner_only_own:
  "Syncing e' \<in> set (trace (snd (sync env e w))) \<Longrightarrow> e' = e \<or> Syncing e' \<in> set (trace w)"
  by (auto simp add: op_defs foldl_execute_page banner_not_page simp del: set_map split: if_splits)

lemma env_with_batch_size:
  "faults env' = faults env \<Longrightarrow> (env' :: env) = env\<lparr>BATCH_SIZE := BATCH_SIZE env'\<rparr>"
  by (cases env, cases env') simp

text \<open>
  A batch size of 0 or less with rows missing: the insert raises, nothing is committed.
\<close>

lemma sync_nonpositive_batch:
  assumes "no_faults env e" and "BATCH_SIZE env \<le> 0" and "missing_ids_of w e \<noteq> {}"
  shows "fst (sync env e w) = Inl EmptyQuery \<and>
         target_tables (snd (sync env e w)) = target_tables w \<and>
         source_tables (snd (sync env e w)) = source_tables w"
proof -
  have sub: "\<not> set (map fst (source_tables w e)) \<subseteq> set (map fst (target_tables w e))"
    using assms(3) by (simp add: missing_ids_of_def del: set_map)
  have ne: "sort_key fst (filter (\<lambda>r. fst r \<in> set (map fst (source_tables w e)) -
      set (map fst (target_tables w e))) (source_tables w e)) \<noteq> []"
    using fetched_rows_nonempty [OF assms(3)]
    by (simp add: fetched_rows_def missing_ids_of_def del: set_map)
  show ?thesis
    using assms(1,2) sub ne
    by (simp add: op_defs no_faults_def del: set_map)
qed

section \<open>Claims\<close>

text \<open>
  C1. A row whose primary key is already in the target is a no-op of the insert: with a
  positive batch size and a store that accepts the statement, \<open>insert_records\<close> returns
  without an exception, the rows stored under every key that was present are exactly
  the rows stored before, and keys that were distinct stay distinct.
\<close>

theorem insert_records_conflict_noop:
  assumes "0 < BATCH_SIZE env" and "\<not> faults env e InsertRecords"
  shows "\<exists>w'. insert_records env e records w = (Inr (length records), w') \<and>
     (\<forall>k \<in> set (map fst (session w e)).
        filter (\<lambda>r. fst r = k) (session w' e) = filter (\<lambda>r. fst r = k) (session w e)) \<and>
     (distinct (map fst (session w e)) \<longrightarrow> distinct (map fst (session w' e)))"
  using assms
  by (simp add: insert_records_ok filter_foldl_insert_row distinct_foldl_insert_row del: set_map)

theorem insert_records_conflict_noop_witness:
  "0 < BATCH_SIZE quiet \<and> \<not> faults quiet FXTrade InsertRecords \<and>
   2 \<in> set (map fst (session stale_world FXTrade)) \<and>
   distinct (map fst (session stale_world FXTrade)) \<and>
   (\<exists>w'. insert_records quiet FXTrade [(2, ''new''), (4, ''d'')] stale_world = (Inr 2, w') \<and>
      filter (\<lambda>r. fst r = 2) (session w' FXTrade) = [(2, ''b'')] \<and>
      distinct (map fst (session w' FXTrade)))"
proof -
  have h1: "0 < BATCH_SIZE quiet" and h2: "\<not> faults quiet FXTrade InsertRecords"
    by (simp_all add: quiet_def)
  have k: "2 \<in> set (map fst (session stale_world FXTrade))"
    and d: "distinct (map fst (session stale_world FXTrade))"
    by (simp_all add: stale_world_def)
  from insert_records_conflict_noop [OF h1 h2, of "[(2, ''new''), (4, ''d'')]" stale_world]
  obtain w' where w': "insert_records quiet FXTrade [(2, ''new''), (4, ''d'')] stale_world = (Inr (length [(2::int, ''new''), (4, ''d'')]), w')"
    "\<forall>k \<in> set (map fst (session stale_world FXTrade)).
        filter (\<lambda>r. fst r = k) (session w' FXTrade) = filter (\<lambda>r. fst r = k) (session stale_world FXTrade)"
    "distinct (map fst (session stale_world FXTrade)) \<longrightarrow> distinct (map fst (session w' FXTrade))"
    by blast
  from w'(2) k have "filter (\<lambda>r. fst r = 2) (session w' FXTrade) = filter (\<lambda>r. fst r = 2) (session stale_world FXTrade)"
    by blast
  then have "filter (\<lambda>r. fst r = 2) (session w' FXTrade) = [(2, ''b'')]"
    by (simp add: stale_world_def)
  with w'(1,3) d h1 h2 k show ?thesis by simp
qed

text \<open>
  C2, as the code has it. An exception of the first entity's sync ends the run at once:
  \<open>main\<close> exits with code 1 in the state that sync left, and the second entity type is
  not attempted. When the first sync returns, converged or not, the second entity type
  is synced next, and a mismatch of the first gives exit code 1.
\<close>

theorem exception_ends_the_run:
  "(\<forall>err. fst (sync env FXTrade w) = Inl err \<longrightarrow>
      main env w = (1, snd (sync env FXTrade w)) \<and>
      (Syncing FXOptionTrade \<notin> set (trace w) \<longrightarrow>
         Syncing FXOptionTrade \<notin> set (trace (snd (main env w))))) \<and>
   (\<forall>b. fst (sync env FXTrade w) = Inr b \<longrightarrow>
      snd (main env w) = snd (sync env FXOptionTrade (snd (sync env FXTrade w))) \<and>
      Syncing FXOptionTrade \<in> set (trace (snd (main env w))) \<and>
      (\<not> b \<longrightarrow> fst (main env w) = 1))"
proof (intro conjI allI impI)
  fix err assume f: "fst (sync env FXTrade w) = Inl err"
  then show m: "main env w = (1, snd (sync env FXTrade w))"
    by (auto simp: main_def split: prod.splits sum.splits)
  assume n: "Syncing FXOptionTrade \<notin> set (trace w)"
  show "Syncing FXOptionTrade \<notin> set (trace (snd (main env w)))"
    unfolding m snd_conv using sync_banner_only_own [of FXOptionTrade env FXTrade w] n by blast
next
  fix b assume f: "fst (sync env FXTrade w) = Inr b"
  then show m: "snd (main env w) = snd (sync env FXOptionTrade (snd (sync env FXTrade w)))"
    by (auto simp: main_def split: prod.splits sum.splits)
  obtain evs where "trace (snd (sync env FXOptionTrade (snd (sync env FXTrade w)))) =
      trace (snd (sync env FXTrade w)) @ Syncing FXOptionTrade # evs"
    using sync_trace_starts by blast
  then show "Syncing FXOptionTrade \<in> set (trace (snd (main env w)))"
    unfolding m by simp
  assume "\<not> b"
  with f show "fst (main env w) = 1"
    by (auto simp: main_def split: prod.splits sum.splits)
qed

theorem exception_ends_the_run_witness:
  "fst (sync source_down FXTrade five_world) = Inl (ConnectionError SqlServer) \<and>
   main source_down five_world = (1, snd (sync source_down FXTrade five_world)) \<and>
   fst (sync quiet FXTrade stale_world) = Inr False \<and>
   Syncing FXOptionTrade \<in> set (trace (snd (main quiet stale_world))) \<and>
   fst (main quiet stale_world) = 1"
proof -
  have h: "no_faults quiet FXTrade" "0 < BATCH_SIZE quiet"
    by (simp_all add: quiet_def no_faults_def)
  have d': "distinct (map fst (target_tables stale_world FXTrade))"
    by (simp add: stale_world_def)
  have c: "fst (sync quiet FXTrade stale_world) = Inr False"
    unfolding sync_result [OF h d'] by (simp add: stale_world_def)
  have e: "fst (sync source_down FXTrade five_world) = Inl (ConnectionError SqlServer)"
    by (simp add: sync_def get_sql_server_connection_def source_down_def)
  from exception_ends_the_run [of source_down five_world] e
  have a: "main source_down five_world = (1, snd (sync source_down FXTrade five_world))"
    by blast
  from exception_ends_the_run [of quiet stale_world] c
  have b: "Syncing FXOptionTrade \<in> set (trace (snd (main quiet stale_world))) \<and>
           fst (main quiet stale_world) = 1"
    by blast
  from a b c e show ?thesis by blast
qed

text \<open>
  The run in which SQL Server refuses the connection of the first entity type: the
  second entity type is never attempted.
\<close>

theorem failure_isolation_counterexample:
  "fst (sync source_down FXTrade five_world) = Inl (ConnectionError SqlServer) \<and>
   main source_down five_world = (1, five_world\<lparr>trace := [Syncing FXTrade]\<rparr>) \<and>
   Syncing FXOptionTrade \<notin> set (trace (snd (main source_down five_world)))"
  by (simp add: main_def sync_def get_sql_server_connection_def source_down_def emit_def
      five_world_def)

text \<open>
  C3. The ids bound in the fetch query are the set difference of the source ids and the
  target ids, and the rows inserted are the source rows with those keys. When the
  difference is empty, neither a fetch nor an insert nor a commit is issued, the target
  is unchanged, the count query still runs and the result is its comparison with the
  number of source ids.
\<close>

theorem sync_fetches_set_difference:
  assumes "no_faults env e" and "0 < BATCH_SIZE env"
  shows "(missing_ids_of w e = {} \<longrightarrow>
            trace (snd (sync env e w)) = trace w @ idle_events e \<and>
            target_tables (snd (sync env e w)) = target_tables w \<and>
            fst (sync env e w) =
              Inr (length (target_tables w e) = card (set (map fst (source_tables w e))))) \<and>
         (missing_ids_of w e \<noteq> {} \<longrightarrow>
            trace (snd (sync env e w)) = trace w @
              [Syncing e, Connected SqlServer, Connected Postgres, SelectIds SqlServer e,
               SelectIds Postgres e,
               SelectWhereIdIn e (card (missing_ids_of w e)) (missing_ids_of w e)] @
              map (InsertPage e) (paginate (nat (BATCH_SIZE env))
                 (sort_key fst (filter (\<lambda>r. fst r \<in> missing_ids_of w e) (source_tables w e)))) @
              [Committed,
               LogInserted (length (filter (\<lambda>r. fst r \<in> missing_ids_of w e) (source_tables w e))),
               SelectCount e, Closed SqlServer, Closed Postgres] \<and>
            target_tables (snd (sync env e w)) e =
              foldl insert_row (target_tables w e)
                (sort_key fst (filter (\<lambda>r. fst r \<in> missing_ids_of w e) (source_tables w e))))"
  using assms
  by (simp add: sync_ok sync_ok_idle sync_events_def fetched_rows_def idle_events_def del: set_map)

theorem sync_fetches_set_difference_witness:
  "no_faults quiet FXTrade \<and> 0 < BATCH_SIZE quiet \<and>
   missing_ids_of five_world FXTrade = {2, 4, 5} \<and>
   trace (snd (sync quiet FXTrade five_world)) =
     [Syncing FXTrade, Connected SqlServer, Connected Postgres, SelectIds SqlServer FXTrade,
      SelectIds Postgres FXTrade, SelectWhereIdIn FXTrade 3 {2, 4, 5},
      InsertPage FXTrade [(2, ''b''), (4, ''d''), (5, ''e'')],
      Committed, LogInserted 3, SelectCount FXTrade, Closed SqlServer, Closed Postgres] \<and>
   target_tables (snd (sync quiet FXTrade five_world)) FXTrade =
     [(1, ''a''), (3, ''c''), (2, ''b''), (4, ''d''), (5, ''e'')] \<and>
   missing_ids_of stale_world FXTrade = {} \<and>
   trace (snd (sync quiet FXTrade stale_world)) = idle_events FXTrade \<and>
   fst (sync quiet FXTrade stale_world) = Inr False"
proof -
  have h1: "no_faults quiet FXTrade" and h2: "0 < BATCH_SIZE quiet"
    by (simp_all add: quiet_def no_faults_def)
  have m: "missing_ids_of five_world FXTrade = {2, 4, 5}"
    by (auto simp: missing_ids_of_def five_world_def)
  have m': "missing_ids_of stale_world FXTrade = {}"
    by (auto simp: missing_ids_of_def stale_world_def)
  have p: "paginate (nat (BATCH_SIZE quiet)) [(2::int, ''b''), (4, ''d''), (5, ''e'')] =
             [[(2, ''b''), (4, ''d''), (5, ''e'')]]"
    by (simp add: paginate.simps quiet_def)
  have f: "filter (\<lambda>r. fst r = 2 \<or> fst r = 4 \<or> fst r = 5) (source_tables five_world FXTrade) =
             [(5, ''e''), (2, ''b''), (4, ''d'')]"
    by (simp add: five_world_def)
  have s: "sort_key fst [(5::int, ''e''), (2, ''b''), (4, ''d'')] = [(2, ''b''), (4, ''d''), (5, ''e'')]"
    by simp
  have t: "insert_row (insert_row (insert_row (target_tables five_world FXTrade) (2, ''b''))
               (4, ''d'')) (5, ''e'') =
             [(1, ''a''), (3, ''c''), (2, ''b''), (4, ''d''), (5, ''e'')]"
    by (simp add: five_world_def insert_row_def)
  have tr: "trace five_world = []" "trace stale_world = []"
    by (simp_all add: five_world_def stale_world_def)
  have c: "length (target_tables stale_world FXTrade) \<noteq>
             card (set (map fst (source_tables stale_world FXTrade)))"
    by (simp add: stale_world_def)
  from sync_fetches_set_difference [OF h1 h2, of five_world] m
  have "trace (snd (sync quiet FXTrade five_world)) =
     [Syncing FXTrade, Connected SqlServer, Connected Postgres, SelectIds SqlServer FXTrade,
      SelectIds Postgres FXTrade, SelectWhereIdIn FXTrade 3 {2, 4, 5},
      InsertPage FXTrade [(2, ''b''), (4, ''d''), (5, ''e'')],
      Committed, LogInserted 3, SelectCount FXTrade, Closed SqlServer, Closed Postgres] \<and>
   target_tables (snd (sync quiet FXTrade five_world)) FXTrade =
     [(1, ''a''), (3, ''c''), (2, ''b''), (4, ''d''), (5, ''e'')]"
    by (simp add: f s p t tr)
  moreover from sync_fetches_set_difference [OF h1 h2, of stale_world] m' c
  have "trace (snd (sync quiet FXTrade stale_world)) = idle_events FXTrade \<and>
        fst (sync quiet FXTrade stale_world) = Inr False"
    by (simp add: tr)
  ultimately show ?thesis using h1 h2 m m' by simp
qed

text \<open>
  C4, as the code has it. With a positive batch size, no store failure and a target
  whose keys are distinct, the second of two consecutive runs finds an empty missing
  set, issues no fetch, insert or commit and leaves the target as the first run left it;
  both runs return the same result, which is convergence exactly when every key of the
  target was a key of the source before the first run. The batch size has to be
  positive: with a batch size of 0 or less and rows missing, the first run raises at the
  insert and commits nothing (lemma \<open>sync_nonpositive_batch\<close>).
\<close>

theorem second_run_inserts_nothing:
  assumes "no_faults env e" and "0 < BATCH_SIZE env"
    and "distinct (map fst (target_tables w e))"
  shows "missing_ids_of (snd (sync env e w)) e = {} \<and>
     source_tables (snd (sync env e w)) = source_tables w \<and>
     trace (snd (sync env e (snd (sync env e w)))) = trace (snd (sync env e w)) @ idle_events e \<and>
     target_tables (snd (sync env e (snd (sync env e w)))) = target_tables (snd (sync env e w)) \<and>
     fst (sync env e w) =
       Inr (set (map fst (target_tables w e)) \<subseteq> set (map fst (source_tables w e))) \<and>
     fst (sync env e (snd (sync env e w))) = fst (sync env e w)"
proof -
  let ?w1 = "snd (sync env e w)"
  have src: "source_tables ?w1 = source_tables w"
    using assms by (simp add: sync_ok)
  have tgt: "target_tables ?w1 e = foldl insert_row (target_tables w e) (fetched_rows w e)"
    using assms by (simp add: sync_ok)
  have m: "missing_ids_of ?w1 e = {}"
    unfolding missing_ids_of_def src tgt keys_after_sync by auto
  have d1: "distinct (map fst (target_tables ?w1 e))"
    unfolding tgt using assms(3) by (rule distinct_foldl_insert_row)
  have r1: "fst (sync env e w) =
       Inr (set (map fst (target_tables w e)) \<subseteq> set (map fst (source_tables w e)))"
    using assms by (rule sync_result)
  have l: "length (target_tables ?w1 e) = card (set (map fst (source_tables w e))) \<longleftrightarrow>
      set (map fst (target_tables w e)) \<subseteq> set (map fst (source_tables w e))"
    unfolding tgt using assms(3) by (simp add: length_after_sync card_union_eq_iff del: set_map)
  have s2: "sync env e ?w1 =
     (Inr (length (target_tables ?w1 e) = card (set (map fst (source_tables ?w1 e)))),
      ?w1\<lparr>session := target_tables ?w1, trace := trace ?w1 @ idle_events e\<rparr>)"
    using assms(1,2) m by (rule sync_ok_idle)
  show ?thesis
    unfolding s2 using m src r1 l by (simp del: set_map)
qed

theorem second_run_inserts_nothing_witness:
  "no_faults quiet FXTrade \<and> 0 < BATCH_SIZE quiet \<and>
   distinct (map fst (target_tables five_world FXTrade)) \<and>
   missing_ids_of (snd (sync quiet FXTrade five_world)) FXTrade = {} \<and>
   outcome_of (fst (sync quiet FXTrade five_world)) = CONVERGED \<and>
   outcome_of (fst (sync quiet FXTrade (snd (sync quiet FXTrade five_world)))) = CONVERGED"
proof -
  have h1: "no_faults quiet FXTrade" and h2: "0 < BATCH_SIZE quiet"
    by (simp_all add: quiet_def no_faults_def)
  have d: "distinct (map fst (target_tables five_world FXTrade))"
    by (simp add: five_world_def)
  have s: "set (map fst (target_tables five_world FXTrade)) \<subseteq>
           set (map fst (source_tables five_world FXTrade))"
    by (simp add: five_world_def)
  from second_run_inserts_nothing [OF h1 h2 d] s h1 h2 d
  show ?thesis by (simp add: outcome_of_def del: set_map)
qed

text \<open>
  With source ids 1, 2 and target ids 1, 2, 3 both runs end in a mismatch.
\<close>

theorem converged_on_both_runs_counterexample:
  "outcome_of (fst (sync quiet FXTrade stale_world)) = MISMATCH \<and>
   outcome_of (fst (sync quiet FXTrade (snd (sync quiet FXTrade stale_world)))) = MISMATCH"
proof -
  have h: "no_faults quiet FXTrade" "0 < BATCH_SIZE quiet"
    by (simp_all add: quiet_def no_faults_def)
  have m: "missing_ids_of stale_world FXTrade = {}"
    by (auto simp: missing_ids_of_def stale_world_def)
  have s1: "sync quiet FXTrade stale_world =
     (Inr False, stale_world\<lparr>session := target_tables stale_world,
        trace := trace stale_world @ idle_events FXTrade\<rparr>)"
    unfolding sync_ok_idle [OF h m] by (simp add: stale_world_def)
  have m2: "missing_ids_of (stale_world\<lparr>session := target_tables stale_world,
        trace := trace stale_world @ idle_events FXTrade\<rparr>) FXTrade = {}"
    by (auto simp: missing_ids_of_def stale_world_def)
  show ?thesis
    unfolding s1 snd_conv fst_conv sync_ok_idle [OF h m2]
    by (simp add: outcome_of_def stale_world_def)
qed

text \<open>
  C5. The returned flag compares the number of rows of the target after the sync with
  the number of source ids. With source ids 1, 2 and target ids 1, 2, 3 nothing is
  inserted and the result is a mismatch, although every source id is in the target.
\<close>

theorem convergence_compares_counts:
  assumes "no_faults env e" and "0 < BATCH_SIZE env"
  shows "fst (sync env e w) =
           Inr (length (target_tables (snd (sync env e w)) e) =
                card (set (map fst (source_tables w e)))) \<and>
         (set (map fst (source_tables w e)) = {1, 2} \<and>
          set (map fst (target_tables w e)) = {1, 2, 3} \<and>
          distinct (map fst (target_tables w e)) \<longrightarrow>
            fst (sync env e w) = Inr False \<and>
            target_tables (snd (sync env e w)) = target_tables w \<and>
            trace (snd (sync env e w)) = trace w @ idle_events e)"
proof -
  have a: "fst (sync env e w) =
           Inr (length (target_tables (snd (sync env e w)) e) =
                card (set (map fst (source_tables w e))))"
    using assms by (simp add: sync_ok del: set_map)
  have b: "fst (sync env e w) = Inr False \<and>
            target_tables (snd (sync env e w)) = target_tables w \<and>
            trace (snd (sync env e w)) = trace w @ idle_events e"
    if s: "set (map fst (source_tables w e)) = {1, 2}"
      and t: "set (map fst (target_tables w e)) = {1, 2, 3}"
      and d: "distinct (map fst (target_tables w e))"
  proof -
    have m: "missing_ids_of w e = {}"
      unfolding missing_ids_of_def s t by auto
    have "card (set (map fst (target_tables w e))) = length (map fst (target_tables w e))"
      using d by (rule distinct_card)
    then have l: "length (target_tables w e) = 3"
      unfolding t by simp
    have c: "card (set (map fst (source_tables w e))) = 2"
      unfolding s by simp
    show ?thesis
      using assms m l c by (simp add: sync_ok_idle del: set_map)
  qed
  from a b show ?thesis by blast
qed

theorem convergence_compares_counts_witness:
  "no_faults quiet FXTrade \<and> 0 < BATCH_SIZE quiet \<and>
   set (map fst (source_tables stale_world FXTrade)) \<subseteq> set (map fst (target_tables stale_world FXTrade)) \<and>
   outcome_of (fst (sync quiet FXTrade stale_world)) = MISMATCH \<and>
   length (target_tables (snd (sync quiet FXTrade stale_world)) FXTrade) = 3 \<and>
   trace (snd (sync quiet FXTrade stale_world)) = idle_events FXTrade"
proof -
  have h1: "no_faults quiet FXTrade" and h2: "0 < BATCH_SIZE quiet"
    by (simp_all add: quiet_def no_faults_def)
  have s: "set (map fst (source_tables stale_world FXTrade)) = {1, 2}"
    and t: "set (map fst (target_tables stale_world FXTrade)) = {1, 2, 3}"
    and d: "distinct (map fst (target_tables stale_world FXTrade))"
    and l: "length (target_tables stale_world FXTrade) = 3"
    and tr: "trace stale_world = []"
    by (auto simp: stale_world_def)
  from convergence_compares_counts [OF h1 h2, of stale_world] s t d
  have "fst (sync quiet FXTrade stale_world) = Inr False \<and>
        target_tables (snd (sync quiet FXTrade stale_world)) = target_tables stale_world \<and>
        trace (snd (sync quiet FXTrade stale_world)) = trace stale_world @ idle_events FXTrade"
    by blast
  then show ?thesis using h1 h2 s t l tr by (simp add: outcome_of_def del: set_map)
qed

text \<open>
  C6, as the code has it. For positive batch sizes and the same store behaviour, the
  result of a sync and the target it leaves do not depend on the batch size, and the
  batched insert leaves the transaction as one page holding all records does.
\<close>

theorem batch_size_transparent:
  assumes "0 < BATCH_SIZE env" and "0 < BATCH_SIZE env'" and "faults env' = faults env"
  shows "fst (sync env' e w) = fst (sync env e w) \<and>
     target_tables (snd (sync env' e w)) = target_tables (snd (sync env e w)) \<and>
     (\<not> faults env e InsertRecords \<longrightarrow>
        fst (insert_records env e records w) = Inr (length records) \<and>
        session (snd (insert_records env e records w)) = session (execute_page e w records))"
proof -
  have "env' = env\<lparr>BATCH_SIZE := BATCH_SIZE env'\<rparr>"
    using assms(3) by (rule env_with_batch_size)
  then have "fst (sync env' e w) = fst (sync env e w) \<and>
     target_tables (snd (sync env' e w)) = target_tables (snd (sync env e w))"
    using sync_batch_size_irrelevant [OF assms(1,2), of e w] by simp
  moreover have "fst (insert_records env e records w) = Inr (length records) \<and>
        session (snd (insert_records env e records w)) = session (execute_page e w records)"
    if "\<not> faults env e InsertRecords"
    using assms(1) that by (simp add: insert_records_ok execute_page_def emit_def)
  ultimately show ?thesis by blast
qed

theorem batch_size_transparent_witness:
  "0 < BATCH_SIZE quiet \<and> 0 < BATCH_SIZE small_batches \<and> faults small_batches = faults quiet \<and>
   paginate (nat (BATCH_SIZE small_batches)) (fetched_rows five_world FXTrade) =
     [[(2, ''b''), (4, ''d'')], [(5, ''e'')]] \<and>
   paginate (nat (BATCH_SIZE quiet)) (fetched_rows five_world FXTrade) =
     [[(2, ''b''), (4, ''d''), (5, ''e'')]] \<and>
   fst (sync small_batches FXTrade five_world) = fst (sync quiet FXTrade five_world) \<and>
   target_tables (snd (sync small_batches FXTrade five_world)) =
     target_tables (snd (sync quiet FXTrade five_world))"
proof -
  have h1: "0 < BATCH_SIZE quiet" and h2: "0 < BATCH_SIZE small_batches"
    and h3: "faults small_batches = faults quiet"
    by (simp_all add: quiet_def small_batches_def)
  have f: "fetched_rows five_world FXTrade = [(2, ''b''), (4, ''d''), (5, ''e'')]"
    by (simp add: fetched_rows_def missing_ids_of_def five_world_def)
  have p: "paginate (nat (BATCH_SIZE small_batches)) (fetched_rows five_world FXTrade) =
     [[(2, ''b''), (4, ''d'')], [(5, ''e'')]]"
    unfolding f by (simp add: paginate.simps small_batches_def)
  have q: "paginate (nat (BATCH_SIZE quiet)) (fetched_rows five_world FXTrade) =
     [[(2, ''b''), (4, ''d''), (5, ''e'')]]"
    unfolding f by (simp add: paginate.simps quiet_def)
  from batch_size_transparent [OF h1 h2 h3, of FXTrade five_world "[]"] h1 h2 h3 p q
  show ?thesis by simp
qed

text \<open>
  With \<open>BATCH_SIZE = 0\<close> the insert raises and the target keeps its two rows, where the
  default batch size leaves five.
\<close>

theorem batch_size_transparent_counterexample:
  "fst (sync zero_batch FXTrade five_world) = Inl EmptyQuery \<and>
   target_tables (snd (sync zero_batch FXTrade five_world)) FXTrade = [(1, ''a''), (3, ''c'')] \<and>
   fst (sync quiet FXTrade five_world) = Inr True \<and>
   target_tables (snd (sync quiet FXTrade five_world)) FXTrade =
     [(1, ''a''), (3, ''c''), (2, ''b''), (4, ''d''), (5, ''e'')]"
proof -
  have h: "no_faults quiet FXTrade" "0 < BATCH_SIZE quiet"
    by (simp_all add: quiet_def no_faults_def)
  have f: "fetched_rows five_world FXTrade = [(2, ''b''), (4, ''d''), (5, ''e'')]"
    by (simp add: fetched_rows_def missing_ids_of_def five_world_def)
  have z: "fst (sync zero_batch FXTrade five_world) = Inl EmptyQuery \<and>
   target_tables (snd (sync zero_batch FXTrade five_world)) FXTrade = [(1, ''a''), (3, ''c'')]"
    by (simp add: op_defs zero_batch_def five_world_def)
  have q: "fst (sync quiet FXTrade five_world) = Inr True \<and>
   target_tables (snd (sync quiet FXTrade five_world)) FXTrade =
     [(1, ''a''), (3, ''c''), (2, ''b''), (4, ''d''), (5, ''e'')]"
    unfolding sync_ok [OF h] f by (simp add: five_world_def insert_row_def)
  from z q show ?thesis by blast
qed

text \<open>
  C7, as the code has it. The fetch is one query with one placeholder for every missing
  id, whatever their number, so it exceeds every limit below the size of the missing
  set.
\<close>

theorem fetch_is_one_query:
  assumes "missing_ids \<noteq> {}"
  shows "trace (snd (fetch_missing_records env e missing_ids w)) =
           trace w @ [SelectWhereIdIn e (card missing_ids) missing_ids] \<and>
         (limit < card missing_ids \<longrightarrow>
            \<not> list_all (within_limit limit) (trace (snd (fetch_missing_records env e missing_ids w))))"
  using assms by (simp add: fetch_missing_records_def emit_def within_limit_def Let_def)

theorem fetch_is_one_query_witness:
  "{2, 4, 5} \<noteq> ({} :: int set) \<and>
   trace (snd (fetch_missing_records quiet FXTrade {2, 4, 5} five_world)) =
     [SelectWhereIdIn FXTrade 3 {2, 4, 5}] \<and>
   \<not> list_all (within_limit 2) (trace (snd (fetch_missing_records quiet FXTrade {2, 4, 5} five_world)))"
proof -
  have h: "{2, 4, 5} \<noteq> ({} :: int set)" by simp
  have t: "trace five_world = []" by (simp add: five_world_def)
  have c: "card {2, 4, 5 :: int} = 3" by simp
  from fetch_is_one_query [OF h, of quiet FXTrade five_world 2] t c h
  show ?thesis by (simp add: within_limit_def)
qed

text \<open>
  A missing set of 2101 ids is fetched by one query with 2101 parameters, more than a
  limit of 2100.
\<close>

theorem fetch_chunked_counterexample:
  "trace (snd (fetch_missing_records quiet FXTrade {1..2101} five_world)) =
     [SelectWhereIdIn FXTrade 2101 {1..2101}] \<and>
   \<not> list_all (within_limit 2100)
       (trace (snd (fetch_missing_records quiet FXTrade {1..2101} five_world)))"
  by (simp add: fetch_missing_records_def emit_def within_limit_def Let_def five_world_def quiet_def)

text \<open>
  C8. When the source connection opens and the target connection fails to open, the
  exception leaves \<open>sync\<close> before its \<^verbatim>\<open>try\<close> block: the source connection stays
  open and is never closed. On every other path both connections are closed (lemma
  \<open>sync_closes_unless\<close>).
\<close>

theorem sync_leaks_source_connection:
  assumes "\<not> faults env e ConnectSource" and "faults env e ConnectTarget"
  shows "sync env e w =
     (Inl (ConnectionError Postgres),
      w\<lparr>open_conns := (open_conns w)(SqlServer := Suc (open_conns w SqlServer)),
        trace := trace w @ [Syncing e, Connected SqlServer]\<rparr>)"
  using assms
  by (simp add: sync_def get_sql_server_connection_def get_postgres_connection_def emit_def)

theorem sync_leaks_source_connection_witness:
  "\<not> faults target_down FXTrade ConnectSource \<and> faults target_down FXTrade ConnectTarget \<and>
   fst (sync target_down FXTrade five_world) = Inl (ConnectionError Postgres) \<and>
   open_conns (snd (sync target_down FXTrade five_world)) SqlServer = 1 \<and>
   trace (snd (sync target_down FXTrade five_world)) = [Syncing FXTrade, Connected SqlServer]"
proof -
  have h1: "\<not> faults target_down FXTrade ConnectSource"
    and h2: "faults target_down FXTrade ConnectTarget"
    by (simp_all add: target_down_def)
  show ?thesis
    unfolding sync_leaks_source_connection [OF h1 h2] using h1 h2
    by (simp add: five_world_def)
qed

text \<open>
  C9. The exit code is 0 when both entity types end converged, and 1 otherwise: when
  one of them ends in a mismatch or raises.
\<close>

theorem exit_code_zero_iff_all_converged:
  "fst (main env w) =
     (if outcome_of (fst (sync env FXTrade w)) = CONVERGED \<and>
         outcome_of (fst (sync env FXOptionTrade (snd (sync env FXTrade w)))) = CONVERGED
      then 0 else 1)"
  by (auto simp: main_def outcome_of_def split: prod.splits sum.splits)

theorem exit_code_zero_iff_all_converged_witness:
  "fst (main quiet five_world) = 0 \<and> fst (main quiet stale_world) = 1 \<and>
   fst (main source_down five_world) = 1"
proof -
  have h: "no_faults quiet FXTrade" "0 < BATCH_SIZE quiet" and h': "no_faults quiet FXOptionTrade"
    by (simp_all add: quiet_def no_faults_def)
  have d: "distinct (map fst (target_tables five_world FXTrade))"
    by (simp add: five_world_def)
  have a: "fst (sync quiet FXTrade five_world) = Inr True"
    unfolding sync_result [OF h d] by (simp add: five_world_def)
  have o: "source_tables (snd (sync quiet FXTrade five_world)) FXOptionTrade = []"
    "target_tables (snd (sync quiet FXTrade five_world)) FXOptionTrade = []"
    unfolding sync_ok [OF h] by (simp_all add: five_world_def)
  have b: "fst (sync quiet FXOptionTrade (snd (sync quiet FXTrade five_world))) = Inr True"
    using sync_result [OF h' h(2), of "snd (sync quiet FXTrade five_world)"] o by simp
  have d': "distinct (map fst (target_tables stale_world FXTrade))"
    by (simp add: stale_world_def)
  have c: "fst (sync quiet FXTrade stale_world) = Inr False"
    unfolding sync_result [OF h d'] by (simp add: stale_world_def)
  have e: "fst (sync source_down FXTrade five_world) = Inl (ConnectionError SqlServer)"
    by (simp add: sync_def get_sql_server_connection_def source_down_def)
  show ?thesis
    using exit_code_zero_iff_all_converged [of quiet five_world]
      exit_code_zero_iff_all_converged [of quiet stale_world]
      exit_code_zero_iff_all_converged [of source_down five_world] a b c e
    by (simp add: outcome_of_def)
qed

text \<open>
  C10. For a non-empty list of records the insert step returns their number. The rows
  actually added are one for every new key, so the returned number exceeds the rows
  added as soon as one record has a key that is already in the target.
\<close>

theorem insert_records_reports_presented:
  assumes "records \<noteq> []" and "0 < BATCH_SIZE env" and "\<not> faults env e InsertRecords"
  shows "fst (insert_records env e records w) = Inr (length records) \<and>
     length (session (snd (insert_records env e records w)) e) =
       length (session w e) + card (set (map fst records) - set (map fst (session w e))) \<and>
     ((\<exists>r \<in> set records. fst r \<in> set (map fst (session w e))) \<longrightarrow>
        length (session (snd (insert_records env e records w)) e) - length (session w e)
          < length records)"
  using assms(2,3)
  by (auto simp add: insert_records_ok length_foldl_insert_row card_new_keys_less simp del: set_map)

theorem insert_records_reports_presented_witness:
  "[(2, ''new''), (4, ''d'')] \<noteq> ([] :: string row list) \<and> 0 < BATCH_SIZE quiet \<and>
   \<not> faults quiet FXTrade InsertRecords \<and>
   fst (insert_records quiet FXTrade [(2, ''new''), (4, ''d'')] stale_world) = Inr 2 \<and>
   length (session (snd (insert_records quiet FXTrade [(2, ''new''), (4, ''d'')] stale_world)) FXTrade) =
     length (session stale_world FXTrade) + 1"
proof -
  have h1: "[(2, ''new''), (4, ''d'')] \<noteq> ([] :: string row list)"
    and h2: "0 < BATCH_SIZE quiet" and h3: "\<not> faults quiet FXTrade InsertRecords"
    by (simp_all add: quiet_def)
  have c: "card (set (map fst [(2::int, ''new''), (4, ''d'')]) -
                 set (map fst (session stale_world FXTrade))) = 1"
  proof -
    have "set (map fst [(2::int, ''new''), (4, ''d'')]) -
                 set (map fst (session stale_world FXTrade)) = {4}"
      by (auto simp: stale_world_def)
    then show ?thesis by simp
  qed
  from insert_records_reports_presented [OF h1 h2 h3, of stale_world] c h1 h2 h3
  show ?thesis by (simp del: set_map)
qed

end
